theory Spec2Isabelle
  imports Main "HOL-Library.AList"
begin

section \<open>Game of War: data model\<close>

text \<open>
  The embedding follows \<^verbatim>\<open>src/gameoflife/gameofwar.py\<close>, \<^verbatim>\<open>cell.py\<close> and
  \<^verbatim>\<open>team.py\<close>. Python dictionaries keep insertion order, which the code relies on
  when it iterates and sorts, so every dictionary is an association list maintained
  with \<^const>\<open>AList.update\<close> (assignment: replace in place or append) and
  \<^const>\<open>AList.delete\<close>. Exceptions are values of type \<open>error\<close>. A character of a
  Python string is a code point below 256 here (type \<open>char\<close>); the predicates on
  characters below are those of Python on these code points. Integers are unbounded, as
  in Python, and memory is not a limit.
\<close>

datatype error = ValueError | TypeError | AttributeError | KeyError | IndexError | ZeroDivisionError

datatype pyval = PInt int | PStr string

type_synonym pos = "int \<times> int"

text \<open>
  A \<^verbatim>\<open>Team\<close> object is mutable and shared between the registry and the cells, so
  it lives in a store indexed by its identity. \<^verbatim>\<open>Team.__eq__\<close> and
  \<^verbatim>\<open>Team.__hash__\<close> compare \<^verbatim>\<open>team_id\<close>, a fresh \<^verbatim>\<open>uuid4\<close>; the identity
  and the \<^verbatim>\<open>team_id\<close> are therefore one number here.
\<close>

type_synonym team_ref = nat

record team =
  view :: string
  score :: int

record cell =
  cell_x :: int
  cell_y :: int
  cell_team :: team_ref
  cell_age :: int

record props =
  width :: int
  height :: int
  refresh :: int
  death_age :: int
  win_round :: int
  to_kill :: int
  output_flag :: string

record game =
  properties :: props
  cells :: "(pos \<times> cell) list"
  teams :: "(string \<times> team_ref) list"
  objs :: "team_ref \<Rightarrow> team"
  next_uuid :: nat

definition position :: "cell \<Rightarrow> pos" where
  "position c = (cell_x c, cell_y c)"

definition Cell :: "int \<Rightarrow> int \<Rightarrow> team_ref \<Rightarrow> int \<Rightarrow> cell" where
  "Cell x y t a = \<lparr>cell_x = x, cell_y = y, cell_team = t, cell_age = a\<rparr>"

text \<open>\<^verbatim>\<open>Cell.update\<close>: the age drops by one; the result says whether it is still positive.\<close>

definition update :: "cell \<Rightarrow> cell \<times> bool" where
  "update c = (let c' = c\<lparr>cell_age := cell_age c - 1\<rparr> in (c', 0 < cell_age c'))"

definition score_of :: "game \<Rightarrow> team_ref \<Rightarrow> int" where
  "score_of g t = score (objs g t)"

definition add_score :: "team_ref \<Rightarrow> int \<Rightarrow> game \<Rightarrow> game" where
  "add_score t d g = g\<lparr>objs := (objs g)(t := (objs g t)\<lparr>score := score (objs g t) + d\<rparr>)\<rparr>"

section \<open>Properties and configuration loading\<close>

definition load_defaults :: props where
  "load_defaults = \<lparr>width = 30, height = 30, refresh = 4, death_age = 4,
     win_round = 512, to_kill = 3, output_flag = ''true''\<rparr>"

definition property_names :: "string list" where
  "property_names =
     [''width'', ''height'', ''refresh'', ''death-age'', ''win-round'', ''to-kill'', ''output'']"

definition between :: "pyval \<Rightarrow> int \<Rightarrow> int \<Rightarrow> error + bool" where
  "between target lower higher =
     (case target of
        PInt n \<Rightarrow> Inr (lower \<le> n \<and> n \<le> higher)
      | PStr s \<Rightarrow> Inl TypeError)"

text \<open>
  \<^verbatim>\<open>str.isdecimal\<close> holds of the ten ASCII digits; \<^verbatim>\<open>str.isdigit\<close> holds of these
  and of the superscript digits U+00B2, U+00B3 and U+00B9.
\<close>

definition isdecimal_char :: "char \<Rightarrow> bool" where
  "isdecimal_char c = (c \<in> set ''0123456789'')"

definition isdigit_char :: "char \<Rightarrow> bool" where
  "isdigit_char c = (isdecimal_char c \<or> of_char c \<in> set [178, 179, 185 :: nat])"

definition isdigit :: "string \<Rightarrow> bool" where
  "isdigit s = (s \<noteq> [] \<and> list_all isdigit_char s)"

definition digit_val :: "char \<Rightarrow> int" where
  "digit_val c = int (of_char c) - 48"

definition isdecimal :: "string \<Rightarrow> bool" where
  "isdecimal s = (s \<noteq> [] \<and> list_all isdecimal_char s)"

definition decimal_value :: "string \<Rightarrow> int" where
  "decimal_value s = foldl (\<lambda>n c. 10 * n + digit_val c) 0 s"

text \<open>
  \<^verbatim>\<open>int(s)\<close> for a string \<open>s\<close> with \<^verbatim>\<open>s.isdigit()\<close>, the only strings the code
  converts: the value of the decimal digits, and \<^verbatim>\<open>ValueError\<close> when a superscript
  digit occurs or when the string is longer than \<^verbatim>\<open>sys.int_info.default_max_str_digits\<close>,
  the limit of CPython on the conversion of decimal strings.
\<close>

definition max_str_digits :: nat where
  "max_str_digits = 4300"

definition py_int :: "string \<Rightarrow> error + int" where
  "py_int s =
     (if isdecimal s \<and> length s \<le> max_str_digits then Inr (decimal_value s)
      else Inl ValueError)"

definition lower_char :: "char \<Rightarrow> char" where
  "lower_char c =
     (let n = (of_char c :: nat) in
      if (65 \<le> n \<and> n \<le> 90) \<or> (192 \<le> n \<and> n \<le> 214) \<or> (216 \<le> n \<and> n \<le> 222)
      then char_of (n + 32) else c)"

definition lower :: "string \<Rightarrow> string" where
  "lower s = map lower_char s"

text \<open>The validation of \<^verbatim>\<open>output\<close>: \<^verbatim>\<open>lambda x: x.lower() in ("true", "false")\<close>.\<close>

definition output_ok :: "pyval \<Rightarrow> error + bool" where
  "output_ok v =
     (case v of
        PInt n \<Rightarrow> Inl AttributeError
      | PStr s \<Rightarrow> Inr (lower s \<in> set [''true'', ''false'']))"

text \<open>The table \<^verbatim>\<open>self.validations\<close> filled by \<^verbatim>\<open>load_defaults\<close>.\<close>

definition validate :: "string \<Rightarrow> pyval \<Rightarrow> error + bool" where
  "validate prop val =
     (if prop = ''width'' then between val 10 100
      else if prop = ''height'' then between val 10 50
      else if prop = ''refresh'' then between val 1 60
      else if prop = ''death-age'' then between val 1 32
      else if prop = ''win-round'' then between val 128 65536
      else if prop = ''to-kill'' then between val 1 8
      else if prop = ''output'' then output_ok val
      else Inl KeyError)"

definition isspace :: "char \<Rightarrow> bool" where
  "isspace c = (of_char c \<in> set [9, 10, 11, 12, 13, 28, 29, 30, 31, 32, 133, 160 :: nat])"

definition strip :: "string \<Rightarrow> string" where
  "strip s = rev (dropWhile isspace (rev (dropWhile isspace s)))"

text \<open>\<^verbatim>\<open>str.split(sep)\<close> for a separator of one character: always at least one field.\<close>

fun split :: "char \<Rightarrow> string \<Rightarrow> string list" where
  "split sep [] = [[]]"
| "split sep (c # cs) =
     (if c = sep then [] # split sep cs
      else (case split sep cs of
              f # fs \<Rightarrow> (c # f) # fs
            | [] \<Rightarrow> [[c]]))"

definition assign :: "props \<Rightarrow> string \<Rightarrow> pyval \<Rightarrow> props" where
  "assign p prop val =
     (case val of
        PInt n \<Rightarrow>
          (if prop = ''width'' then p\<lparr>width := n\<rparr>
           else if prop = ''height'' then p\<lparr>height := n\<rparr>
           else if prop = ''refresh'' then p\<lparr>refresh := n\<rparr>
           else if prop = ''death-age'' then p\<lparr>death_age := n\<rparr>
           else if prop = ''win-round'' then p\<lparr>win_round := n\<rparr>
           else if prop = ''to-kill'' then p\<lparr>to_kill := n\<rparr>
           else p)
      | PStr s \<Rightarrow> (if prop = ''output'' then p\<lparr>output_flag := s\<rparr> else p))"

definition set_property :: "props \<Rightarrow> string \<Rightarrow> string \<Rightarrow> error + props" where
  "set_property p prop val =
     (if prop \<notin> set property_names then Inl ValueError
      else
        (case (if isdigit val
               then (case py_int val of Inl e \<Rightarrow> Inl e | Inr n \<Rightarrow> Inr (PInt n))
               else Inr (PStr (lower val))) of
           Inl e \<Rightarrow> Inl e
         | Inr v \<Rightarrow>
             (case validate prop v of
                Inl e \<Rightarrow> Inl e
              | Inr ok \<Rightarrow> if ok then Inr (assign p prop v) else Inl ValueError)))"

text \<open>
  One line of the configuration file: \<^verbatim>\<open>self.set_property(*line.strip().split(":"))\<close>.
  A line that does not split into exactly two fields calls \<^verbatim>\<open>set_property\<close> with
  the wrong number of arguments, which is a \<^verbatim>\<open>TypeError\<close>.
\<close>

definition config_line :: "props \<Rightarrow> string \<Rightarrow> error + props" where
  "config_line p line =
     (case split CHR '':'' (strip line) of
        [prop, val] \<Rightarrow> set_property p prop val
      | _ \<Rightarrow> Inl TypeError)"

text \<open>
  \<^verbatim>\<open>load_config\<close> assigns into \<^verbatim>\<open>self.properties\<close> line by line; an exception
  leaves the object as the earlier lines made it. The result is the properties
  after the call together with the exception raised, if any.
\<close>

fun load_config :: "props \<Rightarrow> string list \<Rightarrow> props \<times> error option" where
  "load_config p [] = (p, None)"
| "load_config p (line # lines) =
     (case config_line p line of
        Inl e \<Rightarrow> (p, Some e)
      | Inr p' \<Rightarrow> load_config p' lines)"

section \<open>The neighbourhood\<close>

definition py_range :: "int \<Rightarrow> int \<Rightarrow> int list" where
  "py_range a b = [a..b - 1]"

definition offsets :: "(int \<times> int) list" where
  "offsets = concat (map (\<lambda>y_offset. map (\<lambda>x_offset. (x_offset, y_offset)) (py_range (-1) 2))
                         (py_range (-1) 2))"

fun neighbour_step :: "game \<Rightarrow> int \<Rightarrow> int \<Rightarrow> int \<times> int \<Rightarrow> cell list \<times> pos list
    \<Rightarrow> cell list \<times> pos list" where
  "neighbour_step g x y (x_offset, y_offset) (alive, dead) =
     (if y_offset = 0 \<and> x_offset = 0 then (alive, dead)
      else
        let new_x = x + x_offset; new_y = y + y_offset in
        if (new_x \<ge> 0 \<and> new_x < width (properties g)) \<and>
           (new_y \<ge> 0 \<and> new_y < height (properties g))
        then (case map_of (cells g) (new_x, new_y) of
                Some c \<Rightarrow> (alive @ [c], dead)
              | None \<Rightarrow> (alive, dead @ [(new_x, new_y)]))
        else (alive, dead))"

definition get_neighbours :: "game \<Rightarrow> int \<Rightarrow> int \<Rightarrow> cell list \<times> pos list" where
  "get_neighbours g x y = fold (neighbour_step g x y) offsets ([], [])"

section \<open>Loading the initial cells\<close>

text \<open>
  \<^verbatim>\<open>Team(value)\<close> draws its \<^verbatim>\<open>team_id\<close> from \<^verbatim>\<open>uuid.uuid4()\<close>; the model
  hands out the next unused number. The body of the innermost loop of
  \<^verbatim>\<open>load_cells\<close> creates the team on first sight and one cell at \<open>(x, y)\<close>.
\<close>

definition place_cell :: "int \<Rightarrow> string \<Rightarrow> int \<Rightarrow> game \<Rightarrow> game" where
  "place_cell y val x g =
     (let (t, g1) =
            (case map_of (teams g) val of
               Some t \<Rightarrow> (t, g)
             | None \<Rightarrow>
                 (next_uuid g,
                  g\<lparr>teams := AList.update val (next_uuid g) (teams g),
                    objs := (objs g)(next_uuid g := \<lparr>view = val, score = 0\<rparr>),
                    next_uuid := next_uuid g + 1\<rparr>));
          c = Cell x y t (death_age (properties g1))
      in add_score t 1 (g1\<lparr>cells := AList.update (x, y) c (cells g1)\<rparr>))"

text \<open>Python's \<^verbatim>\<open>==\<close> between a \<^verbatim>\<open>str\<close> and an \<^verbatim>\<open>int\<close> is \<^verbatim>\<open>False\<close>.\<close>

definition py_eq :: "pyval \<Rightarrow> pyval \<Rightarrow> bool" where
  "py_eq a b = (a = b)"

text \<open>
  The \<^verbatim>\<open>while True\<close> loop over one stripped line. \<open>chars\<close> is what the iterator
  \<^verbatim>\<open>char_gen\<close> has left; \<^verbatim>\<open>next(char_gen, "")\<close> consumes the first character that
  is not a digit, which becomes \<^verbatim>\<open>value\<close> (the empty string at the end of the line).
  \<^verbatim>\<open>int(amount)\<close> can raise. The test \<^verbatim>\<open>value == -1 and amount != -1\<close> compares a
  string with a number.
\<close>

function load_row :: "int \<Rightarrow> string \<Rightarrow> int \<Rightarrow> game \<Rightarrow> error + game" where
  "load_row y chars x g =
     (let amount = takeWhile isdigit_char chars;
          rest = dropWhile isdigit_char chars;
          char = take 1 rest
      in if amount = [] then Inr g
         else
           (case py_int amount of
              Inl e \<Rightarrow> Inl e
            | Inr amount \<Rightarrow>
                let val = char in
                if py_eq (PStr val) (PInt (- 1)) \<and> \<not> py_eq (PInt amount) (PInt (- 1))
                then Inl ValueError
                else if val = ''.'' then load_row y (drop 1 rest) (x + amount) g
                else load_row y (drop 1 rest) (last (x # py_range x (x + amount)) + 1)
                       (fold (place_cell y val) (py_range x (x + amount)) g)))"
  by pat_completeness auto
termination
proof (relation "measure (\<lambda>(y, chars, x, g). length chars)")
  show "wf (measure (\<lambda>(y, chars, x, g). length chars))" by simp
next
  fix y :: int and chars :: string and x :: int and g :: game
    and amount rest char amounta val
  assume "amount = takeWhile isdigit_char chars" "rest = dropWhile isdigit_char chars"
    "amount \<noteq> []"
  then have "length rest < length chars"
    by (metis length_append length_greater_0_conv less_add_same_cancel2 takeWhile_dropWhile_id)
  then show "((y, drop 1 rest, x + amounta, g), y, chars, x, g)
      \<in> measure (\<lambda>(y, chars, x, g). length chars)"
    by simp
next
  fix y :: int and chars :: string and x :: int and g :: game
    and amount rest char amounta val
  assume "amount = takeWhile isdigit_char chars" "rest = dropWhile isdigit_char chars"
    "amount \<noteq> []"
  then have "length rest < length chars"
    by (metis length_append length_greater_0_conv less_add_same_cancel2 takeWhile_dropWhile_id)
  then show "((y, drop 1 rest, last (x # py_range x (x + amounta)) + 1,
       fold (place_cell y val) (py_range x (x + amounta)) g), y, chars, x, g)
      \<in> measure (\<lambda>(y, chars, x, g). length chars)"
    by simp
qed

text \<open>\<^verbatim>\<open>for y, line in enumerate(cells)\<close>.\<close>

fun load_rows :: "int \<Rightarrow> string list \<Rightarrow> game \<Rightarrow> error + game" where
  "load_rows y [] g = Inr g"
| "load_rows y (line # lines) g =
     (case load_row y (strip line) 0 g of
        Inl e \<Rightarrow> Inl e
      | Inr g' \<Rightarrow> load_rows (y + 1) lines g')"

definition load_cells :: "game \<Rightarrow> string list \<Rightarrow> error + game" where
  "load_cells g lines = load_rows 0 lines g"

text \<open>\<^verbatim>\<open>GameOfWar()\<close>: default properties, no cells, no teams.\<close>

definition init :: game where
  "init = \<lparr>properties = load_defaults, cells = [], teams = [],
     objs = (\<lambda>t. \<lparr>view = [], score = 0\<rparr>), next_uuid = 0\<rparr>"

text \<open>
  \<^verbatim>\<open>load_game\<close> once the two files of the directory are found: the configuration,
  then the cells.
\<close>

definition load_game :: "game \<Rightarrow> string list \<Rightarrow> string list \<Rightarrow> error + game" where
  "load_game g config cell_lines =
     (case load_config (properties g) config of
        (p, Some e) \<Rightarrow> Inl e
      | (p, None) \<Rightarrow> load_cells (g\<lparr>properties := p\<rparr>) cell_lines)"

section \<open>The round update\<close>

definition del_team :: "string \<Rightarrow> game \<Rightarrow> error + game" where
  "del_team v g =
     (case map_of (teams g) v of
        None \<Rightarrow> Inl KeyError
      | Some t \<Rightarrow> Inr (g\<lparr>teams := AList.delete v (teams g)\<rparr>))"

definition enemies :: "cell \<Rightarrow> cell list \<Rightarrow> int" where
  "enemies c alive_neighbours =
     int (length (filter (\<lambda>neighbour. cell_team neighbour \<noteq> cell_team c) alive_neighbours))"

text \<open>
  One iteration of the first loop of \<^verbatim>\<open>_update_cells\<close>. The game \<open>g\<close> keeps the
  old \<^verbatim>\<open>self.cells\<close> until the end of the update; \<open>new_cells\<close> and \<open>dead_cells\<close>
  are the two local collections. \<open>dead_cells\<close> is a Python set: the list records
  the \<^verbatim>\<open>add\<close> calls in order and is deduplicated when it is iterated.
\<close>

definition pass_a_cell :: "game \<Rightarrow> cell \<Rightarrow> (pos \<times> cell) list \<times> pos list
    \<Rightarrow> error + game \<times> (pos \<times> cell) list \<times> pos list" where
  "pass_a_cell g c0 acc =
     (let (new_cells, dead_cells) = acc; (c, alive) = update c0 in
      if alive then
        let (alive_neighbours, dead_neighbours) = get_neighbours g (cell_x c) (cell_y c);
            dead_cells' = dead_cells @ dead_neighbours
        in if enemies c alive_neighbours < to_kill (properties g)
           then Inr (g, AList.update (position c) c new_cells, dead_cells')
           else
             let g1 = add_score (cell_team c) (- 1) g in
             if score_of g1 (cell_team c) = 0
             then (case del_team (view (objs g1 (cell_team c))) g1 of
                     Inl e \<Rightarrow> Inl e
                   | Inr g2 \<Rightarrow> Inr (g2, new_cells, dead_cells'))
             else Inr (g1, new_cells, dead_cells')
      else Inr (g, new_cells, dead_cells))"

fun pass_a :: "game \<Rightarrow> cell list \<Rightarrow> (pos \<times> cell) list \<times> pos list
    \<Rightarrow> error + game \<times> (pos \<times> cell) list \<times> pos list" where
  "pass_a g [] acc = Inr (g, acc)"
| "pass_a g (c # cs) acc =
     (case pass_a_cell g c acc of
        Inl e \<Rightarrow> Inl e
      | Inr (g', acc') \<Rightarrow> pass_a g' cs acc')"

text \<open>The dictionary \<^verbatim>\<open>controllers\<close>: one more neighbour for team \<open>t\<close>.\<close>

definition controllers_add :: "(team_ref \<times> int) list \<Rightarrow> team_ref \<Rightarrow> (team_ref \<times> int) list" where
  "controllers_add controllers t =
     (let controllers' =
            (if map_of controllers t = None then AList.update t 0 controllers else controllers)
      in AList.map_entry t (\<lambda>n. n + 1) controllers')"

text \<open>
  \<^verbatim>\<open>sorted(xs, key=key, reverse=True)\<close>: descending and stable, that is an ascending
  stable sort on the negated key.
\<close>

definition sorted_reverse :: "('a \<Rightarrow> int) \<Rightarrow> 'a list \<Rightarrow> 'a list" where
  "sorted_reverse key xs = sort_key (\<lambda>x. - key x) xs"

definition revive :: "game \<Rightarrow> pos \<Rightarrow> team_ref \<Rightarrow> (pos \<times> cell) list \<Rightarrow> game \<times> (pos \<times> cell) list" where
  "revive g p dominant new_cells =
     (add_score dominant 1 g,
      AList.update p (Cell (fst p) (snd p) dominant (death_age (properties g))) new_cells)"

text \<open>One iteration of the second loop (\<^verbatim>\<open>for cell in dead_cells\<close>).\<close>

definition pass_b_cell :: "game \<Rightarrow> pos \<Rightarrow> (pos \<times> cell) list
    \<Rightarrow> error + game \<times> (pos \<times> cell) list" where
  "pass_b_cell g p new_cells =
     (let (alive_neighbours, dead_neighbours) = get_neighbours g (fst p) (snd p) in
      if length alive_neighbours < 3 then Inr (g, new_cells)
      else
        let controllers = foldl controllers_add [] (map cell_team alive_neighbours);
            dominant_teams = sorted_reverse snd controllers
        in (case dominant_teams of
              [] \<Rightarrow> Inl IndexError
            | d # ds \<Rightarrow>
                let max_control = snd d;
                    highest = map fst (takeWhile (\<lambda>(t, control). \<not> control < max_control)
                                         dominant_teams);
                    highest = sorted_reverse (score_of g) highest
                in (case highest of
                      [] \<Rightarrow> Inl IndexError
                    | [dominant] \<Rightarrow> Inr (revive g p dominant new_cells)
                    | h0 # h1 # hs \<Rightarrow>
                        if score_of g h0 = score_of g h1 then Inr (g, new_cells)
                        else Inr (revive g p h0 new_cells))))"

fun pass_b :: "game \<Rightarrow> pos list \<Rightarrow> (pos \<times> cell) list \<Rightarrow> error + game \<times> (pos \<times> cell) list" where
  "pass_b g [] new_cells = Inr (g, new_cells)"
| "pass_b g (p # ps) new_cells =
     (case pass_b_cell g p new_cells of
        Inl e \<Rightarrow> Inl e
      | Inr (g', new_cells') \<Rightarrow> pass_b g' ps new_cells')"

text \<open>
  \<^verbatim>\<open>_update_cells\<close>. The order in which Python iterates the set \<^verbatim>\<open>dead_cells\<close> is
  not fixed by the language; \<open>set_iter\<close> stands for it: it turns the recorded
  \<^verbatim>\<open>add\<close> calls into the sequence of distinct elements the loop visits.
\<close>

definition set_order :: "(pos list \<Rightarrow> pos list) \<Rightarrow> bool" where
  "set_order set_iter = (\<forall>xs. distinct (set_iter xs) \<and> set (set_iter xs) = set xs)"

definition update_cells :: "(pos list \<Rightarrow> pos list) \<Rightarrow> game \<Rightarrow> error + game" where
  "update_cells set_iter g =
     (case pass_a g (map snd (cells g)) ([], []) of
        Inl e \<Rightarrow> Inl e
      | Inr (g1, new_cells, dead_cells) \<Rightarrow>
          (case pass_b g1 (set_iter dead_cells) new_cells of
             Inl e \<Rightarrow> Inl e
           | Inr (g2, new_cells') \<Rightarrow> Inr (g2\<lparr>cells := new_cells'\<rparr>)))"

section \<open>The simulation loop\<close>

text \<open>
  \<^verbatim>\<open>_generate_grid\<close> builds \<open>height\<close> rows of \<open>width\<close> dots. \<^verbatim>\<open>_update_grid\<close> writes
  the view of every cell of the store at \<^verbatim>\<open>grid[y][x]\<close>, with \<open>(x, y)\<close> the key of
  the cell; a list index below zero counts from the end, and an index outside the list
  raises \<^verbatim>\<open>IndexError\<close>.
\<close>

definition generate_grid :: "game \<Rightarrow> string list list" where
  "generate_grid g =
     map (\<lambda>y. map (\<lambda>x. ''.'') (py_range 0 (width (properties g))))
       (py_range 0 (height (properties g)))"

definition py_index :: "'a list \<Rightarrow> int \<Rightarrow> error + nat" where
  "py_index xs i =
     (let n = int (length xs) in
      if 0 \<le> i \<and> i < n then Inr (nat i)
      else if - n \<le> i \<and> i < 0 then Inr (nat (i + n))
      else Inl IndexError)"

fun update_grid_items :: "game \<Rightarrow> (pos \<times> cell) list \<Rightarrow> string list list
    \<Rightarrow> error + string list list" where
  "update_grid_items g [] grid = Inr grid"
| "update_grid_items g (((x, y), c) # items) grid =
     (case py_index grid y of
        Inl e \<Rightarrow> Inl e
      | Inr j \<Rightarrow>
          (case py_index (grid ! j) x of
             Inl e \<Rightarrow> Inl e
           | Inr i \<Rightarrow>
               update_grid_items g items
                 (grid[j := (grid ! j)[i := view (objs g (cell_team c))]])))"

definition update_grid :: "game \<Rightarrow> string list list \<Rightarrow> error + string list list" where
  "update_grid g grid = update_grid_items g (cells g) grid"

text \<open>
  The \<^verbatim>\<open>while\<close> loop of \<^verbatim>\<open>start\<close>, one call per round that is applied (the
  wall-clock test only delays a round and \<^verbatim>\<open>output\<close> only prints). The loop
  variable is \<open>round_number\<close>. With one team left the code evaluates
  \<^verbatim>\<open>self.teams.values()[0]\<close>; a dictionary view cannot be subscripted in Python 3
  (which the file needs for \<^verbatim>\<open>:=\<close>), so this raises \<^verbatim>\<open>TypeError\<close>. The
  \<^verbatim>\<open>else\<close> branch of the loop takes the first team of the registry sorted by
  score, descending.
\<close>

function game_loop :: "(pos list \<Rightarrow> pos list) \<Rightarrow> game \<Rightarrow> int \<Rightarrow> error + team_ref \<times> game" where
  "game_loop set_iter g round_number =
     (if round_number < win_round (properties g) then
        (case update_cells set_iter g of
           Inl e \<Rightarrow> Inl e
         | Inr g' \<Rightarrow>
             (case update_grid g' (generate_grid g') of
                Inl e \<Rightarrow> Inl e
              | Inr grid \<Rightarrow>
                  if length (teams g') = 1 then Inl TypeError
                  else game_loop set_iter g' (round_number + 1)))
      else
        (case sorted_reverse (score_of g) (map snd (teams g)) of
           [] \<Rightarrow> Inl IndexError
         | winner # rest \<Rightarrow> Inr (winner, g)))"
  by pat_completeness auto
termination
proof (relation "measure (\<lambda>(set_iter, g, round_number).
                   nat (win_round (properties g) - round_number))")
  show "wf (measure (\<lambda>(set_iter, g, round_number).
              nat (win_round (properties g) - round_number)))"
    by simp
next
  fix set_iter :: "pos list \<Rightarrow> pos list" and g g' :: game and round_number :: int
  assume lt: "round_number < win_round (properties g)"
    and upd: "update_cells set_iter g = Inr g'"
  have a_cell: "properties h' = properties h" if "pass_a_cell h c acc = Inr (h', acc')"
    for h h' c acc acc'
    using that
    by (auto simp: pass_a_cell_def add_score_def del_team_def Let_def
        split: prod.splits if_splits sum.splits option.splits)
  have a: "properties h' = properties h" if "pass_a h cs acc = Inr (h', acc')"
    for h h' cs acc acc'
    using that
  proof (induction cs arbitrary: h acc)
    case Nil
    then show ?case by simp
  next
    case (Cons c cs)
    then show ?case
      by (auto split: sum.splits prod.splits dest: a_cell)
  qed
  have b_cell: "properties h' = properties h" if "pass_b_cell h p nc = Inr (h', nc')"
    for h h' p nc nc'
    using that
    by (auto simp: pass_b_cell_def revive_def add_score_def Let_def
        split: prod.splits if_splits list.splits)
  have b: "properties h' = properties h" if "pass_b h ps nc = Inr (h', nc')"
    for h h' ps nc nc'
    using that
  proof (induction ps arbitrary: h nc)
    case Nil
    then show ?case by simp
  next
    case (Cons p ps)
    then show ?case
      by (auto split: sum.splits prod.splits dest: b_cell)
  qed
  from upd obtain g1 nc dc g2 nc' where
    pa: "pass_a g (map snd (cells g)) ([], []) = Inr (g1, nc, dc)" and
    pb: "pass_b g1 (set_iter dc) nc = Inr (g2, nc')" and
    g': "g' = g2\<lparr>cells := nc'\<rparr>"
    by (auto simp: update_cells_def split: sum.splits prod.splits)
  have "properties g' = properties g"
    using a [OF pa] b [OF pb] g' by simp
  with lt show "((set_iter, g', round_number + 1), set_iter, g, round_number)
      \<in> measure (\<lambda>(set_iter, g, round_number).
            nat (win_round (properties g) - round_number))"
    by simp
qed

text \<open>
  \<^verbatim>\<open>start\<close>: \<^verbatim>\<open>delta = 1 / self.properties["refresh"]\<close> is computed before the
  initial grid is drawn, and the grid before the loop. The result is the winning team
  and the final state, or the exception.
\<close>

definition start :: "(pos list \<Rightarrow> pos list) \<Rightarrow> game \<Rightarrow> error + team_ref \<times> game" where
  "start set_iter g =
     (if refresh (properties g) = 0 then Inl ZeroDivisionError
      else
        (case update_grid g (generate_grid g) of
           Inl e \<Rightarrow> Inl e
         | Inr grid \<Rightarrow> game_loop set_iter g 0))"

declare load_row.simps [simp del]
declare game_loop.simps [simp del]

section \<open>Definitions used by the statements\<close>

text \<open>
  The positions \<^verbatim>\<open>_get_neighbours\<close> looks at, in the order of its two loops: the
  offsets that are not \<open>(0, 0)\<close> and stay inside the grid.
\<close>

definition neighbour_positions :: "game \<Rightarrow> int \<Rightarrow> int \<Rightarrow> pos list" where
  "neighbour_positions g x y =
     map (\<lambda>(x_offset, y_offset). (x + x_offset, y + y_offset))
       (filter (\<lambda>(x_offset, y_offset). \<not> (y_offset = 0 \<and> x_offset = 0) \<and>
                  (0 \<le> x + x_offset \<and> x + x_offset < width (properties g)) \<and>
                  (0 \<le> y + y_offset \<and> y + y_offset < height (properties g)))
          offsets)"

text \<open>
  The neighbourhood as the specification words it: the offsets in \<open>{-1,0,1}\<^sup>2\<close> without
  \<open>(0,0)\<close> that stay inside \<open>[0, w) \<times> [0, h)\<close>.
\<close>

definition spec_neighbourhood :: "int \<Rightarrow> int \<Rightarrow> int \<Rightarrow> int \<Rightarrow> pos set" where
  "spec_neighbourhood w h x y =
     {(x + dx, y + dy) | dx dy. dx \<in> {- 1, 0, 1} \<and> dy \<in> {- 1, 0, 1} \<and> (dx, dy) \<noteq> (0, 0) \<and>
        0 \<le> x + dx \<and> x + dx < w \<and> 0 \<le> y + dy \<and> y + dy < h}"

text \<open>
  The documented inclusive range of each numeric property, and what the specification
  accepts as a configuration line: \<^verbatim>\<open>key:value\<close> with a known key and a value in range,
  written with at most \<open>max_str_digits\<close> decimal digits (\<^verbatim>\<open>true\<close> or \<^verbatim>\<open>false\<close>, in any
  case, for \<^verbatim>\<open>output\<close>).
\<close>

definition documented_ranges :: "(string \<times> int \<times> int) list" where
  "documented_ranges =
     [(''width'', 10, 100), (''height'', 10, 50), (''refresh'', 1, 60), (''death-age'', 1, 32),
      (''win-round'', 128, 65536), (''to-kill'', 1, 8)]"

definition spec_value_ok :: "string \<Rightarrow> string \<Rightarrow> bool" where
  "spec_value_ok prop val =
     (case map_of documented_ranges prop of
        Some (lo, hi) \<Rightarrow>
          isdecimal val \<and> length val \<le> max_str_digits \<and>
          lo \<le> decimal_value val \<and> decimal_value val \<le> hi
      | None \<Rightarrow> prop = ''output'' \<and> lower val \<in> set [''true'', ''false''])"

definition spec_line_ok :: "string \<Rightarrow> bool" where
  "spec_line_ok line =
     (case split CHR '':'' (strip line) of
        [prop, val] \<Rightarrow> spec_value_ok prop val
      | _ \<Rightarrow> False)"

text \<open>
  A row of well-formed tokens: each token is a count of one to \<open>max_str_digits\<close> decimal
  digits followed by exactly one symbol that is not a digit (a superscript digit is
  neither). \<open>n\<close> is the number of digits of the current token that have been read.
\<close>

fun row_ok :: "nat \<Rightarrow> string \<Rightarrow> bool" where
  "row_ok n [] = (n = 0)"
| "row_ok n (c # cs) =
     (if isdecimal_char c then n < max_str_digits \<and> row_ok (Suc n) cs
      else \<not> isdigit_char c \<and> 0 < n \<and> row_ok 0 cs)"

definition spec_row_ok :: "string \<Rightarrow> bool" where
  "spec_row_ok line = row_ok 0 (strip line)"

definition with_width :: "int \<Rightarrow> game \<Rightarrow> game" where
  "with_width w g = g\<lparr>properties := (properties g)\<lparr>width := w\<rparr>\<rparr>"



text \<open>
  The first loop of \<^verbatim>\<open>_update_cells\<close> in the words of the specification: \<open>aged c\<close> is
  the cell with its lifespan decremented; a cell survives the round when that lifespan is
  still positive and fewer than \<^verbatim>\<open>to-kill\<close> of its alive neighbours belong to another
  team; \<open>keep\<close> puts a surviving cell into the new store.
\<close>

definition aged :: "cell \<Rightarrow> cell" where
  "aged c = c\<lparr>cell_age := cell_age c - 1\<rparr>"

definition survives :: "game \<Rightarrow> cell \<Rightarrow> bool" where
  "survives g c =
     (0 < cell_age c - 1 \<and>
      enemies c (fst (get_neighbours g (cell_x c) (cell_y c))) < to_kill (properties g))"

definition keep :: "game \<Rightarrow> cell \<Rightarrow> (pos \<times> cell) list \<Rightarrow> (pos \<times> cell) list" where
  "keep g c new_cells =
     (if survives g c then AList.update (position c) (aged c) new_cells else new_cells)"

text \<open>
  A well-formed cell store: the keys are distinct and every cell sits at the key of its
  own position.
\<close>

definition store_ok :: "(pos \<times> cell) list \<Rightarrow> bool" where
  "store_ok cs = (distinct (map fst cs) \<and> list_all (\<lambda>(p, c). position c = p) cs)"

text \<open>
  The generations of a game: the state \<^verbatim>\<open>load_game\<close> gives on an object without cells
  (a new one, or one after \<^verbatim>\<open>reset\<close>), and every state a round makes of a generation.
\<close>

inductive generation :: "(pos list \<Rightarrow> pos list) \<Rightarrow> game \<Rightarrow> bool"
  for set_iter :: "pos list \<Rightarrow> pos list" where
  loaded: "cells g0 = [] \<Longrightarrow> load_game g0 config rows = Inr g \<Longrightarrow> generation set_iter g"
| round: "generation set_iter g \<Longrightarrow> update_cells set_iter g = Inr g' \<Longrightarrow> generation set_iter g'"

text \<open>Every cell of the store lies inside the grid.\<close>

definition in_grid :: "game \<Rightarrow> bool" where
  "in_grid g =
     list_all (\<lambda>((x, y), c). 0 \<le> x \<and> x < width (properties g) \<and>
                  0 \<le> y \<and> y < height (properties g)) (cells g)"


section \<open>The neighbourhood query\<close>

lemma offsets_eq:
  "offsets = [(- 1, - 1), (0, - 1), (1, - 1), (- 1, 0), (0, 0), (1, 0), (- 1, 1), (0, 1), (1, 1)]"
  by (simp add: offsets_def py_range_def upto_rec1)

lemma fold_neighbour_step:
  "fold (neighbour_step g x y) os (a, d) =
     (a @ List.map_filter (map_of (cells g))
            (map (\<lambda>(xo, yo). (x + xo, y + yo))
               (filter (\<lambda>(xo, yo). \<not> (yo = 0 \<and> xo = 0) \<and>
                  (0 \<le> x + xo \<and> x + xo < width (properties g)) \<and>
                  (0 \<le> y + yo \<and> y + yo < height (properties g))) os)),
      d @ filter (\<lambda>p. map_of (cells g) p = None)
            (map (\<lambda>(xo, yo). (x + xo, y + yo))
               (filter (\<lambda>(xo, yo). \<not> (yo = 0 \<and> xo = 0) \<and>
                  (0 \<le> x + xo \<and> x + xo < width (properties g)) \<and>
                  (0 \<le> y + yo \<and> y + yo < height (properties g))) os)))"
proof (induction os arbitrary: a d)
  case Nil
  then show ?case by (simp add: List.map_filter_simps)
next
  case (Cons o1 os)
  obtain xo yo where o1: "o1 = (xo, yo)" by (cases o1)
  show ?case
    by (simp add: o1 Cons.IH List.map_filter_simps Let_def split: option.splits)
qed

lemma get_neighbours_eq:
  "get_neighbours g x y =
     (List.map_filter (map_of (cells g)) (neighbour_positions g x y),
      filter (\<lambda>p. map_of (cells g) p = None) (neighbour_positions g x y))"
  by (simp add: get_neighbours_def neighbour_positions_def fold_neighbour_step)

lemma distinct_neighbour_positions: "distinct (neighbour_positions g x y)"
proof -
  have "distinct offsets" by (simp add: offsets_eq)
  moreover have "inj (\<lambda>(xo, yo). (x + xo, y + yo))"
    by (auto simp: inj_on_def)
  ultimately show ?thesis
    unfolding neighbour_positions_def
    by (intro distinct_map_filter) (auto simp: distinct_map intro: inj_on_subset)
qed

lemma mem_offsets: "(dx, dy) \<in> set offsets \<longleftrightarrow> dx \<in> {- 1, 0, 1} \<and> dy \<in> {- 1, 0, 1}"
  by (auto simp: offsets_eq)

lemma set_neighbour_positions:
  "set (neighbour_positions g x y) =
     spec_neighbourhood (width (properties g)) (height (properties g)) x y"
proof (intro set_eqI iffI)
  fix p assume "p \<in> set (neighbour_positions g x y)"
  then obtain xo yo where "(xo, yo) \<in> set offsets" "p = (x + xo, y + yo)"
    "\<not> (yo = 0 \<and> xo = 0)" "0 \<le> x + xo" "x + xo < width (properties g)"
    "0 \<le> y + yo" "y + yo < height (properties g)"
    unfolding neighbour_positions_def by auto
  then show "p \<in> spec_neighbourhood (width (properties g)) (height (properties g)) x y"
    unfolding spec_neighbourhood_def mem_offsets by blast
next
  fix p assume "p \<in> spec_neighbourhood (width (properties g)) (height (properties g)) x y"
  then obtain dx dy where "p = (x + dx, y + dy)" "dx \<in> {- 1, 0, 1} \<and> dy \<in> {- 1, 0, 1}"
    "(dx, dy) \<noteq> (0, 0)" "0 \<le> x + dx" "x + dx < width (properties g)"
    "0 \<le> y + dy" "y + dy < height (properties g)"
    unfolding spec_neighbourhood_def by blast
  then show "p \<in> set (neighbour_positions g x y)"
    unfolding neighbour_positions_def mem_offsets [symmetric] by force
qed


lemma length_map_filter_split:
  "length (List.map_filter f xs) + length (filter (\<lambda>p. f p = None) xs) = length xs"
  by (induction xs) (auto simp: List.map_filter_simps split: option.splits)

lemma map_filter_as_map:
  "map Some (List.map_filter f xs) = map f (filter (\<lambda>p. f p \<noteq> None) xs)"
  by (induction xs) (auto simp: List.map_filter_simps split: option.splits)

lemma corner_neighbour_positions:
  assumes "2 \<le> width (properties g)" "2 \<le> height (properties g)"
    "x = 0 \<or> x = width (properties g) - 1" "y = 0 \<or> y = height (properties g) - 1"
  shows "length (neighbour_positions g x y) = 3"
  using assms unfolding neighbour_positions_def offsets_eq by auto

text \<open>
  C6: the neighbourhood query returns exactly the positions at the eight offsets that lie
  inside the grid, the stored cells of those that are keys of the cell store as alive (each
  once) and the others as dead; at a corner of a grid of width and height at least 2 there
  are exactly three of them.
\<close>

theorem get_neighbours_spec:
  assumes "get_neighbours g x y = (alive, dead)"
  shows "(\<exists>ps. distinct ps \<and>
            set ps = {p \<in> spec_neighbourhood (width (properties g)) (height (properties g)) x y.
                        p \<in> dom (map_of (cells g))} \<and>
            map Some alive = map (map_of (cells g)) ps) \<and>
         distinct dead \<and>
         set dead = {p \<in> spec_neighbourhood (width (properties g)) (height (properties g)) x y.
                       p \<notin> dom (map_of (cells g))} \<and>
         (2 \<le> width (properties g) \<and> 2 \<le> height (properties g) \<and>
          (x = 0 \<or> x = width (properties g) - 1) \<and> (y = 0 \<or> y = height (properties g) - 1)
            \<longrightarrow> length alive + length dead = 3)"
proof -
  let ?N = "neighbour_positions g x y"
  let ?m = "map_of (cells g)"
  from assms have alive: "alive = List.map_filter ?m ?N"
    and dead: "dead = filter (\<lambda>p. ?m p = None) ?N"
    by (simp_all add: get_neighbours_eq)
  let ?ps = "filter (\<lambda>p. ?m p \<noteq> None) ?N"
  have "distinct ?ps" by (simp add: distinct_neighbour_positions)
  moreover have "set ?ps = {p \<in> spec_neighbourhood (width (properties g)) (height (properties g)) x y.
                        p \<in> dom ?m}"
    by (auto simp: set_neighbour_positions [symmetric])
  moreover have "map Some alive = map ?m ?ps"
    by (simp add: alive map_filter_as_map)
  ultimately have 1: "\<exists>ps. distinct ps \<and>
            set ps = {p \<in> spec_neighbourhood (width (properties g)) (height (properties g)) x y.
                        p \<in> dom ?m} \<and>
            map Some alive = map ?m ps"
    by blast
  have 2: "distinct dead" by (simp add: dead distinct_neighbour_positions)
  have 3: "set dead = {p \<in> spec_neighbourhood (width (properties g)) (height (properties g)) x y.
                       p \<notin> dom ?m}"
    by (auto simp: dead set_neighbour_positions [symmetric])
  have 4: "length alive + length dead = length ?N"
    by (simp add: alive dead length_map_filter_split)
  show ?thesis
    using 1 2 3 4 corner_neighbour_positions [of g x y] by simp
qed

lemma init_corner: "get_neighbours init 0 0 = ([], [(1, 0), (0, 1), (1, 1)])"
  by (simp add: get_neighbours_def offsets_eq init_def load_defaults_def)

theorem get_neighbours_spec_witness:
  "get_neighbours init 0 0 = ([], [(1, 0), (0, 1), (1, 1)]) \<and>
   set [(1, 0), (0, 1), (1, 1)] = {p \<in> spec_neighbourhood 30 30 0 0. p \<notin> dom (map_of (cells init))} \<and>
   length ([] :: cell list) + length [(1 :: int, 0 :: int), (0, 1), (1, 1)] = 3"
  using get_neighbours_spec [OF init_corner] init_corner
  by (simp add: init_def load_defaults_def)

section \<open>Evaluating the model on concrete games\<close>

lemmas load_eval = load_game_def load_cells_def load_row.simps place_cell_def py_eq_def py_range_def
  strip_def isspace_def isdigit_char_def isdecimal_char_def isdecimal_def decimal_value_def
  max_str_digits_def py_int_def digit_val_def init_def load_defaults_def
  config_line_def set_property_def property_names_def validate_def between_def output_ok_def
  assign_def isdigit_def lower_def lower_char_def Cell_def add_score_def score_of_def Let_def
  upto_rec1

lemmas round_eval = update_cells_def pass_a_cell_def pass_b_cell_def get_neighbours_def offsets_eq
  update_def enemies_def position_def del_team_def controllers_add_def sorted_reverse_def
  revive_def

text \<open>Drawing the grid succeeds when every cell of the store lies inside it.\<close>

lemma py_index_in_range: "0 \<le> i \<Longrightarrow> i < int (length xs) \<Longrightarrow> py_index xs i = Inr (nat i)"
  by (simp add: py_index_def)

lemma update_grid_items_in_grid:
  "length grid = nat h \<Longrightarrow> list_all (\<lambda>row. length row = nat w) grid \<Longrightarrow>
   list_all (\<lambda>((x, y), c). 0 \<le> x \<and> x < w \<and> 0 \<le> y \<and> y < h) items \<Longrightarrow>
   \<exists>grid'. update_grid_items g items grid = Inr grid'"
proof (induction items arbitrary: grid)
  case Nil
  then show ?case by simp
next
  case (Cons item items)
  obtain x y c where item: "item = ((x, y), c)"
    by (metis surj_pair)
  from Cons.prems(3) item have x: "0 \<le> x" "x < w" and y: "0 \<le> y" "y < h"
    and rest: "list_all (\<lambda>((x, y), c). 0 \<le> x \<and> x < w \<and> 0 \<le> y \<and> y < h) items"
    by simp_all
  from y Cons.prems(1) have j: "nat y < length grid"
    by simp
  with Cons.prems(2) have row: "length (grid ! nat y) = nat w"
    by (simp add: list_all_length)
  have iy: "py_index grid y = Inr (nat y)"
    using y Cons.prems(1) by (intro py_index_in_range) simp_all
  have ix: "py_index (grid ! nat y) x = Inr (nat x)"
    using x row by (intro py_index_in_range) simp_all
  let ?grid = "grid[nat y := (grid ! nat y)[nat x := view (objs g (cell_team c))]]"
  have "length ?grid = nat h"
    using Cons.prems(1) by simp
  moreover have "list_all (\<lambda>row. length row = nat w) ?grid"
    using Cons.prems(2) row j by (auto simp: list_all_length nth_list_update)
  ultimately have "\<exists>grid'. update_grid_items g items ?grid = Inr grid'"
    using rest by (rule Cons.IH)
  then show ?case
    by (simp add: item iy ix)
qed

lemma update_grid_in_grid:
  assumes "in_grid g"
  shows "\<exists>grid. update_grid g (generate_grid g) = Inr grid"
  unfolding update_grid_def
proof (rule update_grid_items_in_grid)
  show "length (generate_grid g) = nat (height (properties g))"
    by (simp add: generate_grid_def py_range_def)
  show "list_all (\<lambda>row. length row = nat (width (properties g))) (generate_grid g)"
    by (simp add: generate_grid_def py_range_def list_all_iff)
  show "list_all (\<lambda>((x, y), c). 0 \<le> x \<and> x < width (properties g) \<and>
                     0 \<le> y \<and> y < height (properties g)) (cells g)"
    using assms by (simp add: in_grid_def)
qed

lemma game_loop_single_team:
  "round_number < win_round (properties g) \<Longrightarrow> update_cells set_iter g = Inr g' \<Longrightarrow>
   in_grid g' \<Longrightarrow> length (teams g') = 1 \<Longrightarrow>
   game_loop set_iter g round_number = Inl TypeError"
  using update_grid_in_grid [of g'] by (subst game_loop.simps) auto

lemma game_loop_error:
  "round_number < win_round (properties g) \<Longrightarrow> update_cells set_iter g = Inl e \<Longrightarrow>
   game_loop set_iter g round_number = Inl e"
  by (subst game_loop.simps) simp

lemma game_loop_step:
  "round_number < win_round (properties g) \<Longrightarrow> update_cells set_iter g = Inr g' \<Longrightarrow>
   in_grid g' \<Longrightarrow> length (teams g') \<noteq> 1 \<Longrightarrow>
   game_loop set_iter g round_number = game_loop set_iter g' (round_number + 1)"
  using update_grid_in_grid [of g'] by (subst game_loop.simps) auto

lemma start_in_grid:
  "refresh (properties g) \<noteq> 0 \<Longrightarrow> in_grid g \<Longrightarrow> start set_iter g = game_loop set_iter g 0"
  using update_grid_in_grid [of g] by (auto simp: start_def)

lemma set_order_remdups: "set_order remdups"
  by (simp add: set_order_def)

lemma set_order_rev_remdups: "set_order (rev \<circ> remdups)"
  by (simp add: set_order_def)

subsection \<open>A cell outside the grid\<close>

text \<open>
  A loaded cell at column 30 of a grid 30 wide: drawing the initial grid raises
  \<^verbatim>\<open>IndexError\<close> before the first round.
\<close>

lemma out_of_grid_eval:
  "(case load_game init [] [''30.1x''] of
      Inl e \<Rightarrow> False
    | Inr g \<Rightarrow>
        cells g = [((30, 0), Cell 30 0 0 4)] \<and> width (properties g) = 30 \<and>
        height (properties g) = 30 \<and> refresh (properties g) \<noteq> 0)"
  by (simp add: load_eval)

lemma out_of_grid_raises:
  "\<exists>g. load_game init [] [''30.1x''] = Inr g \<and> start remdups g = Inl IndexError"
proof -
  from out_of_grid_eval obtain g where g: "load_game init [] [''30.1x''] = Inr g"
    and c: "cells g = [((30, 0), Cell 30 0 0 4)]"
    and p: "width (properties g) = 30" "height (properties g) = 30" "refresh (properties g) \<noteq> 0"
    by (auto split: sum.splits)
  have "update_grid g (generate_grid g) = Inl IndexError"
    by (simp add: update_grid_def generate_grid_def c p py_index_def py_range_def)
  with p(3) have "start remdups g = Inl IndexError"
    by (simp add: start_def)
  with g show ?thesis by blast
qed

subsection \<open>A cell that dies of age keeps its team's score\<close>

lemma aged_cell_eval:
  "(case load_game init [''death-age:1''] [''1x''] of
      Inl e \<Rightarrow> False
    | Inr g \<Rightarrow>
        cells g = [((0, 0), Cell 0 0 0 1)] \<and> teams g = [(''x'', 0)] \<and> score_of g 0 = 1 \<and>
        (case update_cells remdups g of
           Inl e \<Rightarrow> False
         | Inr g' \<Rightarrow> cells g' = [] \<and> teams g' = [(''x'', 0)] \<and> score_of g' 0 = 1))"
  by (simp add: load_eval round_eval)

text \<open>
  C1 (the score of a team equals its number of cells in every reachable state): the game
  loaded from the configuration \<^verbatim>\<open>death-age:1\<close> and the one row \<^verbatim>\<open>1x\<close> has one cell of
  team \<^verbatim>\<open>x\<close> and score 1; after one round the cell store is empty and the score of
  \<^verbatim>\<open>x\<close> is still 1.
\<close>

theorem aged_cell_keeps_score:
  "\<exists>g g'. load_game init [''death-age:1''] [''1x''] = Inr g \<and>
     cells g = [((0, 0), Cell 0 0 0 1)] \<and> teams g = [(''x'', 0)] \<and> score_of g 0 = 1 \<and>
     update_cells remdups g = Inr g' \<and>
     cells g' = [] \<and> teams g' = [(''x'', 0)] \<and> score_of g' 0 = 1"
  using aged_cell_eval by (auto split: sum.splits)

subsection \<open>The last team standing\<close>

lemma single_team_eval:
  "(case load_game init [] [''1x''] of
      Inl e \<Rightarrow> False
    | Inr g \<Rightarrow>
        refresh (properties g) \<noteq> 0 \<and> 0 < win_round (properties g) \<and> in_grid g \<and>
        (case update_cells remdups g of
           Inl e \<Rightarrow> False
         | Inr g' \<Rightarrow> teams g' = [(''x'', 0)] \<and> in_grid g'))"
  by (simp add: load_eval round_eval in_grid_def)

text \<open>
  C4 (the loop ends when one team remains, and reports it as the winner): the game loaded
  from the one row \<^verbatim>\<open>1x\<close> has exactly one team after its first round, and \<^verbatim>\<open>start\<close>
  then raises \<^verbatim>\<open>TypeError\<close> instead of returning that team.
\<close>

theorem last_team_standing_raises:
  "\<exists>g g'. load_game init [] [''1x''] = Inr g \<and> update_cells remdups g = Inr g' \<and>
     teams g' = [(''x'', 0)] \<and> start remdups g = Inl TypeError"
proof -
  from single_team_eval obtain g g' where g: "load_game init [] [''1x''] = Inr g"
    and p: "refresh (properties g) \<noteq> 0" "0 < win_round (properties g)" and i: "in_grid g"
    and u: "update_cells remdups g = Inr g'" and t: "teams g' = [(''x'', 0)]"
    and i': "in_grid g'"
    by (auto split: sum.splits)
  have "start remdups g = Inl TypeError"
    using game_loop_single_team [OF p(2) u i'] t by (simp add: start_in_grid [OF p(1) i])
  with g u t show ?thesis by blast
qed

subsection \<open>A team revived after it left the registry\<close>

lemma removed_team_eval:
  "(case load_game init [''to-kill:1''] [''1o'', ''1.1x'', ''3.1o'', ''1.1x'', ''1o7.1z''] of
      Inl e \<Rightarrow> False
    | Inr g \<Rightarrow>
        refresh (properties g) \<noteq> 0 \<and> 0 < win_round (properties g) \<and> in_grid g \<and>
        (case update_cells remdups g of
           Inl e \<Rightarrow> False
         | Inr g' \<Rightarrow>
             teams g' = [(''o'', 0), (''z'', 2)] \<and> 1 < win_round (properties g') \<and>
             in_grid g' \<and>
             map_of (cells g') (2, 2) = Some (Cell 2 2 1 4) \<and> score_of g' 1 = 1 \<and>
             (case update_cells remdups g' of
                Inl e \<Rightarrow> e = KeyError
              | Inr g'' \<Rightarrow> False)))"
  by (simp add: load_eval round_eval in_grid_def)

text \<open>
  C7 (no runtime error once the round loop runs on a loaded state): in the game loaded
  from \<^verbatim>\<open>to-kill:1\<close> and the five rows below, round 1 kills both cells of team \<^verbatim>\<open>x\<close>
  (which leaves the registry) and revives \<open>(2, 2)\<close> for \<^verbatim>\<open>x\<close>; round 2 kills that cell,
  the score of \<^verbatim>\<open>x\<close> reaches zero again and \<^verbatim>\<open>del self.teams[...]\<close> raises
  \<^verbatim>\<open>KeyError\<close>, which ends \<^verbatim>\<open>start\<close>.
\<close>

theorem round_update_raises_KeyError:
  "\<exists>g g'. load_game init [''to-kill:1''] [''1o'', ''1.1x'', ''3.1o'', ''1.1x'', ''1o7.1z''] = Inr g \<and>
     update_cells remdups g = Inr g' \<and> teams g' = [(''o'', 0), (''z'', 2)] \<and>
     map_of (cells g') (2, 2) = Some (Cell 2 2 1 4) \<and> score_of g' 1 = 1 \<and>
     update_cells remdups g' = Inl KeyError \<and> start remdups g = Inl KeyError"
proof -
  from removed_team_eval obtain g g' where
    g: "load_game init [''to-kill:1''] [''1o'', ''1.1x'', ''3.1o'', ''1.1x'', ''1o7.1z''] = Inr g"
    and p: "refresh (properties g) \<noteq> 0" "0 < win_round (properties g)" and i: "in_grid g"
    and u: "update_cells remdups g = Inr g'" and t: "teams g' = [(''o'', 0), (''z'', 2)]"
    and p': "1 < win_round (properties g')" and i': "in_grid g'"
    and c: "map_of (cells g') (2, 2) = Some (Cell 2 2 1 4)" "score_of g' 1 = 1"
    and u': "update_cells remdups g' = Inl KeyError"
    by (auto split: sum.splits)
  have "game_loop remdups g 0 = game_loop remdups g' 1"
    using game_loop_step [OF p(2) u i'] t by simp
  also have "\<dots> = Inl KeyError"
    using game_loop_error [OF p' u'] .
  finally have "start remdups g = Inl KeyError"
    by (simp add: start_in_grid [OF p(1) i])
  with g u t c u' show ?thesis by blast
qed

subsection \<open>The scores the tie-break reads\<close>

lemma order_eval:
  "(case load_game init [] [''1c'', ''2.1a'', ''1.1a1.1b'', ''2.1b''] of
      Inl e \<Rightarrow> False
    | Inr g \<Rightarrow>
        score_of g 1 = 2 \<and> score_of g 2 = 2 \<and>
        (case update_cells remdups g of
           Inl e \<Rightarrow> False
         | Inr g1 \<Rightarrow> map_of (cells g1) (2, 2) = Some (Cell 2 2 1 4)) \<and>
        (case update_cells (rev \<circ> remdups) g of
           Inl e \<Rightarrow> False
         | Inr g2 \<Rightarrow> map_of (cells g2) (2, 2) = None))"
  by (simp add: load_eval round_eval)

lemma kill_eval:
  "(case load_game init [''to-kill:1''] [''1a'', ''2.1b'', ''2.1c''] of
      Inl e \<Rightarrow> False
    | Inr g \<Rightarrow>
        score_of g 0 = 1 \<and> score_of g 1 = 1 \<and> score_of g 2 = 1 \<and>
        (case pass_b_cell g (1, 1) [] of
           Inl e \<Rightarrow> False
         | Inr (g', new_cells) \<Rightarrow> new_cells = []) \<and>
        (case pass_a g (map snd (cells g)) ([], []) of
           Inl e \<Rightarrow> False
         | Inr (g1, new_cells, dead_cells) \<Rightarrow>
             score_of g1 0 = 1 \<and> score_of g1 1 = 0 \<and> score_of g1 2 = 0 \<and>
             (1, 1) \<in> set dead_cells \<and> map_of new_cells (1, 1) = None) \<and>
        (case update_cells remdups g of
           Inl e \<Rightarrow> False
         | Inr g2 \<Rightarrow> map_of (cells g2) (1, 1) = Some (Cell 1 1 0 4)))"
  by (simp add: load_eval round_eval)

lemma order_example:
  "\<exists>g g1 g2. load_game init [] [''1c'', ''2.1a'', ''1.1a1.1b'', ''2.1b''] = Inr g \<and>
     score_of g 1 = 2 \<and> score_of g 2 = 2 \<and>
     update_cells remdups g = Inr g1 \<and> map_of (cells g1) (2, 2) = Some (Cell 2 2 1 4) \<and>
     update_cells (rev \<circ> remdups) g = Inr g2 \<and> map_of (cells g2) (2, 2) = None"
  using order_eval by (auto split: sum.splits)

lemma kill_example:
  "\<exists>g g' g1 new_cells dead_cells g2.
     load_game init [''to-kill:1''] [''1a'', ''2.1b'', ''2.1c''] = Inr g \<and>
     score_of g 0 = 1 \<and> score_of g 1 = 1 \<and> score_of g 2 = 1 \<and>
     pass_b_cell g (1, 1) [] = Inr (g', []) \<and>
     pass_a g (map snd (cells g)) ([], []) = Inr (g1, new_cells, dead_cells) \<and>
     score_of g1 0 = 1 \<and> score_of g1 1 = 0 \<and> score_of g1 2 = 0 \<and>
     (1, 1) \<in> set dead_cells \<and> map_of new_cells (1, 1) = None \<and>
     update_cells remdups g = Inr g2 \<and> map_of (cells g2) (1, 1) = Some (Cell 1 1 0 4)"
  using kill_eval by (auto split: sum.splits prod.splits)

text \<open>
  C10 (the tie-break of a revival reads the scores of the moment, not those of the
  snapshot). First game: teams \<^verbatim>\<open>a\<close> and \<^verbatim>\<open>b\<close> (numbers 1 and 2) have two cells each
  and tie 2 to 2 around the dead position \<open>(2, 2)\<close>, and \<open>(1, 1)\<close> is revived for \<^verbatim>\<open>a\<close>;
  \<open>(2, 2)\<close> is revived for \<^verbatim>\<open>a\<close> when the loop visits it after \<open>(1, 1)\<close> and stays dead
  when it visits it before. Second game, with \<^verbatim>\<open>to-kill\<close> 1: three teams have one cell
  each around \<open>(1, 1)\<close>, so the step taken on the state before the round leaves it dead;
  the first loop kills the cells of \<^verbatim>\<open>b\<close> and \<^verbatim>\<open>c\<close>, whose scores drop to 0, and the
  round revives \<open>(1, 1)\<close> for \<^verbatim>\<open>a\<close>.
\<close>

theorem tie_break_reads_current_scores:
  "set_order remdups \<and> set_order (rev \<circ> remdups) \<and>
   (\<exists>g g1 g2. load_game init [] [''1c'', ''2.1a'', ''1.1a1.1b'', ''2.1b''] = Inr g \<and>
      score_of g 1 = 2 \<and> score_of g 2 = 2 \<and>
      update_cells remdups g = Inr g1 \<and> map_of (cells g1) (2, 2) = Some (Cell 2 2 1 4) \<and>
      update_cells (rev \<circ> remdups) g = Inr g2 \<and> map_of (cells g2) (2, 2) = None) \<and>
   (\<exists>g g' g1 new_cells dead_cells g2.
      load_game init [''to-kill:1''] [''1a'', ''2.1b'', ''2.1c''] = Inr g \<and>
      score_of g 0 = 1 \<and> score_of g 1 = 1 \<and> score_of g 2 = 1 \<and>
      pass_b_cell g (1, 1) [] = Inr (g', []) \<and>
      pass_a g (map snd (cells g)) ([], []) = Inr (g1, new_cells, dead_cells) \<and>
      score_of g1 0 = 1 \<and> score_of g1 1 = 0 \<and> score_of g1 2 = 0 \<and>
      (1, 1) \<in> set dead_cells \<and> map_of new_cells (1, 1) = None \<and>
      update_cells remdups g = Inr g2 \<and> map_of (cells g2) (1, 1) = Some (Cell 1 1 0 4))"
  using set_order_remdups set_order_rev_remdups order_example kill_example
  by (intro conjI)

section \<open>Loading a configuration\<close>












lemmas config_eval = strip_def isspace_def isdigit_char_def isdecimal_char_def isdecimal_def
  decimal_value_def max_str_digits_def py_int_def digit_val_def
  load_defaults_def config_line_def set_property_def property_names_def validate_def between_def
  output_ok_def assign_def isdigit_def lower_def lower_char_def Let_def

text \<open>
  A line ending in a no-break space is stripped and loads; a superscript digit passes
  \<^verbatim>\<open>isdigit\<close> and makes \<^verbatim>\<open>int\<close> raise.
\<close>

lemma no_break_space_stripped:
  "load_config load_defaults [''width:50'' @ [CHR 0xA0]] = (load_defaults\<lparr>width := 50\<rparr>, None) \<and>
   spec_line_ok (''width:50'' @ [CHR 0xA0])"
  by (simp add: config_eval spec_line_ok_def spec_value_ok_def documented_ranges_def)

lemma superscript_value_raises:
  "snd (load_config load_defaults [''width:1'' @ [CHR 0xB2]]) = Some ValueError \<and>
   \<not> spec_line_ok (''width:1'' @ [CHR 0xB2])"
  by (simp add: config_eval spec_line_ok_def spec_value_ok_def documented_ranges_def)




section \<open>Loading the cells\<close>

lemma py_eq_str_int: "py_eq (PStr s) (PInt n) = False"
  by (simp add: py_eq_def)

lemma load_row_unfold:
  "load_row y chars x g =
     (if takeWhile isdigit_char chars = [] then Inr g
      else
        (case py_int (takeWhile isdigit_char chars) of
           Inl e \<Rightarrow> Inl e
         | Inr amount \<Rightarrow>
             if take 1 (dropWhile isdigit_char chars) = ''.''
             then load_row y (drop 1 (dropWhile isdigit_char chars)) (x + amount) g
             else load_row y (drop 1 (dropWhile isdigit_char chars))
                    (last (x # py_range x (x + amount)) + 1)
                    (fold (place_cell y (take 1 (dropWhile isdigit_char chars)))
                       (py_range x (x + amount)) g)))"
  by (subst load_row.simps) (simp add: Let_def py_eq_str_int split: sum.splits)

lemma row_ok_token:
  "row_ok n cs \<Longrightarrow> n \<le> max_str_digits \<Longrightarrow>
   list_all isdecimal_char (takeWhile isdigit_char cs) \<and>
   n + length (takeWhile isdigit_char cs) \<le> max_str_digits \<and>
   (0 < n \<or> takeWhile isdigit_char cs \<noteq> [] \<longrightarrow>
      row_ok 0 (drop 1 (dropWhile isdigit_char cs)))"
proof (induction cs arbitrary: n)
  case Nil
  then show ?case by simp
next
  case (Cons c cs)
  show ?case
  proof (cases "isdecimal_char c")
    case True
    then have d: "isdigit_char c" by (simp add: isdigit_char_def)
    from Cons.prems True have "row_ok (Suc n) cs" "Suc n \<le> max_str_digits"
      by simp_all
    from Cons.IH [OF this] True d show ?thesis by simp
  next
    case False
    with Cons.prems have "\<not> isdigit_char c" "0 < n" "row_ok 0 cs"
      by simp_all
    with Cons.prems(2) show ?thesis by simp
  qed
qed

lemma row_ok_amount:
  assumes "row_ok 0 chars" and "takeWhile isdigit_char chars \<noteq> []"
  shows "py_int (takeWhile isdigit_char chars) = Inr (decimal_value (takeWhile isdigit_char chars))"
    and "row_ok 0 (drop 1 (dropWhile isdigit_char chars))"
  using row_ok_token [OF assms(1), simplified] assms(2)
  by (simp_all add: py_int_def isdecimal_def)

lemma load_row_well_formed: "row_ok 0 chars \<Longrightarrow> \<exists>g'. load_row y chars x g = Inr g'"
proof (induction y chars x g rule: load_row.induct)
  case (1 y chars x g)
  show ?case
  proof (cases "takeWhile isdigit_char chars = []")
    case True
    then show ?thesis using load_row_unfold [of y chars x g] by simp
  next
    case False
    note a = row_ok_amount [OF "1.prems" False]
    show ?thesis
    proof (cases "take 1 (dropWhile isdigit_char chars) = ''.''")
      case True
      from "1.IH"(1) [OF refl refl refl False a(1) refl _ True a(2)]
      have "\<exists>g'. load_row y (drop 1 (dropWhile isdigit_char chars))
             (x + decimal_value (takeWhile isdigit_char chars)) g = Inr g'"
        by (simp add: py_eq_str_int)
      with False True a(1) show ?thesis using load_row_unfold [of y chars x g] by simp
    next
      case dot: False
      from "1.IH"(2) [OF refl refl refl False a(1) refl _ dot a(2)]
      have "\<exists>g'. load_row y (drop 1 (dropWhile isdigit_char chars))
             (last (x # py_range x (x + decimal_value (takeWhile isdigit_char chars))) + 1)
             (fold (place_cell y (take 1 (dropWhile isdigit_char chars)))
                (py_range x (x + decimal_value (takeWhile isdigit_char chars))) g) = Inr g'"
        by (simp add: py_eq_str_int)
      with False dot a(1) show ?thesis using load_row_unfold [of y chars x g] by simp
    qed
  qed
qed

lemma place_cell_width:
  "place_cell y val x (with_width w g) = with_width w (place_cell y val x g)"
  by (simp add: place_cell_def with_width_def add_score_def Let_def split: option.splits)

lemma fold_place_cell_width:
  "fold (place_cell y val) xs (with_width w g) = with_width w (fold (place_cell y val) xs g)"
  by (induction xs arbitrary: g) (simp_all add: place_cell_width)

lemma load_row_width:
  "load_row y chars x (with_width w g) = map_sum (\<lambda>e. e) (with_width w) (load_row y chars x g)"
proof (induction y chars x g rule: load_row.induct)
  case (1 y chars x g)
  note L = load_row_unfold [of y chars x g]
  note R = load_row_unfold [of y chars x "with_width w g"]
  show ?case
  proof (cases "takeWhile isdigit_char chars = []")
    case True
    then show ?thesis using L R by simp
  next
    case False
    show ?thesis
    proof (cases "py_int (takeWhile isdigit_char chars)")
      case (Inl e)
      with False show ?thesis using L R by simp
    next
      case (Inr amount)
      show ?thesis
      proof (cases "take 1 (dropWhile isdigit_char chars) = ''.''")
        case True
        from "1.IH"(1) [OF refl refl refl False Inr refl _ True]
        have "load_row y (drop 1 (dropWhile isdigit_char chars)) (x + amount) (with_width w g) =
              map_sum (\<lambda>e. e) (with_width w)
                (load_row y (drop 1 (dropWhile isdigit_char chars)) (x + amount) g)"
          by (simp add: py_eq_str_int)
        with False Inr True show ?thesis using L R by simp
      next
        case dot: False
        from "1.IH"(2) [OF refl refl refl False Inr refl _ dot]
        have "load_row y (drop 1 (dropWhile isdigit_char chars))
                (last (x # py_range x (x + amount)) + 1)
                (with_width w (fold (place_cell y (take 1 (dropWhile isdigit_char chars)))
                   (py_range x (x + amount)) g)) =
              map_sum (\<lambda>e. e) (with_width w)
                (load_row y (drop 1 (dropWhile isdigit_char chars))
                   (last (x # py_range x (x + amount)) + 1)
                   (fold (place_cell y (take 1 (dropWhile isdigit_char chars)))
                      (py_range x (x + amount)) g))"
          by (simp add: py_eq_str_int)
        with False Inr dot show ?thesis using L R by (simp add: fold_place_cell_width)
      qed
    qed
  qed
qed

lemma load_rows_well_formed:
  "list_all spec_row_ok lines \<Longrightarrow> \<exists>g'. load_rows y lines g = Inr g'"
proof (induction lines arbitrary: y g)
  case Nil
  then show ?case by simp
next
  case (Cons line lines)
  from Cons.prems have line: "spec_row_ok line" and rest: "list_all spec_row_ok lines"
    by simp_all
  from line have "row_ok 0 (strip line)"
    by (simp add: spec_row_ok_def)
  then obtain g1 where "load_row y (strip line) 0 g = Inr g1"
    using load_row_well_formed by blast
  with Cons.IH [OF rest, of "y + 1" g1] show ?case by simp
qed

lemma load_rows_width:
  "load_rows y lines (with_width w g) = map_sum (\<lambda>e. e) (with_width w) (load_rows y lines g)"
proof (induction lines arbitrary: y g)
  case Nil
  then show ?case by simp
next
  case (Cons line lines)
  show ?case
  proof (cases "load_row y (strip line) 0 g")
    case (Inl e)
    then have "load_row y (strip line) 0 (with_width w g) = Inl e"
      by (simp add: load_row_width)
    with Inl show ?thesis by simp
  next
    case (Inr g1)
    then have "load_row y (strip line) 0 (with_width w g) = Inr (with_width w g1)"
      by (simp add: load_row_width)
    with Inr Cons.IH [of "y + 1" g1] show ?thesis by simp
  qed
qed

lemmas cells_eval = load_cells_def load_row.simps place_cell_def py_eq_def py_range_def
  strip_def isspace_def isdigit_char_def isdecimal_char_def isdecimal_def decimal_value_def
  max_str_digits_def py_int_def digit_val_def init_def load_defaults_def Cell_def add_score_def score_of_def Let_def upto_rec1

text \<open>A count with a superscript digit makes \<^verbatim>\<open>int(amount)\<close> raise.\<close>

lemma superscript_count_raises:
  "load_cells init [[CHR ''1'', CHR 0xB2, CHR ''x'']] = Inl ValueError \<and>
   \<not> spec_row_ok [CHR ''1'', CHR 0xB2, CHR ''x'']"
  by (simp add: cells_eval spec_row_ok_def)

text \<open>
  C9, as stated, fails: with the default width 30 the row \<^verbatim>\<open>3x\<close>, one well-formed
  token covering three cells, is accepted and gives three cells.
\<close>

theorem short_row_accepted:
  "\<not> isl (load_cells init [''3x'']) \<and>
   width (properties (projr (load_cells init [''3x'']))) = 30 \<and>
   map fst (cells (projr (load_cells init [''3x'']))) = [(0, 0), (1, 0), (2, 0)]"
  by (simp add: cells_eval)

text \<open>
  C9, amended: loading the cells never compares a row with the width property. Rows of
  well-formed tokens (a count of decimal digits that \<^verbatim>\<open>int\<close> converts, then one symbol
  that is not a digit) are accepted whatever number of cells they cover, and for all
  rows the result of the load, a state or an exception, is the same under every width.
\<close>

theorem load_cells_ignores_width:
  "(list_all spec_row_ok rows \<longrightarrow> (\<exists>g'. load_cells g rows = Inr g')) \<and>
   load_cells (with_width w g) rows = map_sum (\<lambda>e. e) (with_width w) (load_cells g rows)"
  using load_rows_well_formed [of rows 0 g]
  by (simp add: load_cells_def load_rows_width)

theorem load_cells_ignores_width_witness:
  "list_all spec_row_ok [''3x''] \<and> (\<exists>g'. load_cells init [''3x''] = Inr g') \<and>
   load_cells (with_width 10 init) [''3x''] = map_sum (\<lambda>e. e) (with_width 10) (load_cells init [''3x''])"
proof -
  have h: "list_all spec_row_ok [''3x'']"
    by (simp add: spec_row_ok_def strip_def isspace_def isdigit_char_def isdecimal_char_def
        max_str_digits_def)
  show ?thesis
    using load_cells_ignores_width [of "[''3x'']" init 10] h by blast
qed

section \<open>Reviving a dead position\<close>
















section \<open>The two loops of a round\<close>

lemma get_neighbours_frame:
  "cells h' = cells h \<Longrightarrow> properties h' = properties h \<Longrightarrow>
   get_neighbours h' x y = get_neighbours h x y"
  by (simp add: get_neighbours_eq neighbour_positions_def)

lemma dead_neighbours_unoccupied:
  "p \<in> set (snd (get_neighbours g x y)) \<Longrightarrow> map_of (cells g) p = None"
  by (simp add: get_neighbours_eq)

lemma survives_frame:
  assumes "cells h' = cells h" "properties h' = properties h"
  shows "survives h' c = survives h c"
  using get_neighbours_frame [OF assms, of "cell_x c" "cell_y c"] assms(2)
  by (simp add: survives_def)

lemma enemies_aged: "enemies (c\<lparr>cell_age := a\<rparr>) alive = enemies c alive"
  by (simp add: enemies_def)

lemma add_score_frame:
  "cells (add_score t d h) = cells h" "properties (add_score t d h) = properties h"
  "teams (add_score t d h) = teams h"
  by (simp_all add: add_score_def)

lemma del_team_frame:
  "del_team v h = Inr h' \<Longrightarrow> cells h' = cells h \<and> properties h' = properties h \<and> objs h' = objs h"
  by (auto simp: del_team_def split: option.splits)

lemma pass_a_cell_unfold:
  "pass_a_cell h c (nc, dc) =
     (if 0 < cell_age c - 1 then
        if survives h c
        then Inr (h, AList.update (position c) (aged c) nc,
                  dc @ snd (get_neighbours h (cell_x c) (cell_y c)))
        else if score_of (add_score (cell_team c) (- 1) h) (cell_team c) = 0
        then (case del_team (view (objs (add_score (cell_team c) (- 1) h) (cell_team c)))
                     (add_score (cell_team c) (- 1) h) of
                Inl e \<Rightarrow> Inl e
              | Inr h2 \<Rightarrow> Inr (h2, nc, dc @ snd (get_neighbours h (cell_x c) (cell_y c))))
        else Inr (add_score (cell_team c) (- 1) h, nc,
                  dc @ snd (get_neighbours h (cell_x c) (cell_y c)))
      else Inr (h, nc, dc))"
proof -
  obtain alive dead where n: "get_neighbours h (cell_x c) (cell_y c) = (alive, dead)"
    by (metis surj_pair)
  show ?thesis
    by (simp add: pass_a_cell_def update_def Let_def n enemies_aged aged_def position_def
        survives_def split: sum.splits)
qed

lemma pass_a_cell_effect:
  assumes "pass_a_cell h c (nc, dc) = Inr (h', nc', dc')"
  shows "cells h' = cells h" and "properties h' = properties h" and "nc' = keep h c nc"
    and "set dc' \<subseteq> set dc \<union> {p. map_of (cells h) p = None}"
proof -
  note u = pass_a_cell_unfold [of h c nc dc]
  let ?dead = "snd (get_neighbours h (cell_x c) (cell_y c))"
  let ?h1 = "add_score (cell_team c) (- 1) h"
  have d: "set (dc @ ?dead) \<subseteq> set dc \<union> {p. map_of (cells h) p = None}"
    using dead_neighbours_unoccupied [of _ h "cell_x c" "cell_y c"] by auto
  consider (old) "\<not> 0 < cell_age c - 1"
    | (keep) "0 < cell_age c - 1" "survives h c"
    | (last) "0 < cell_age c - 1" "\<not> survives h c" "score_of ?h1 (cell_team c) = 0"
    | (kill) "0 < cell_age c - 1" "\<not> survives h c" "score_of ?h1 (cell_team c) \<noteq> 0"
    by blast
  then have r: "cells h' = cells h \<and> properties h' = properties h \<and> nc' = keep h c nc \<and>
         set dc' \<subseteq> set dc \<union> {p. map_of (cells h) p = None}"
  proof cases
    case old
    then have e: "pass_a_cell h c (nc, dc) = Inr (h, nc, dc)" using u by simp
    from assms [unfolded e] have "h' = h" "nc' = nc" "dc' = dc" by auto
    with old show ?thesis by (auto simp: keep_def survives_def)
  next
    case keep
    then have e: "pass_a_cell h c (nc, dc) =
        Inr (h, AList.update (position c) (aged c) nc, dc @ ?dead)"
      using u by simp
    from assms [unfolded e] have "h' = h" "nc' = AList.update (position c) (aged c) nc"
      "dc' = dc @ ?dead"
      by auto
    with keep d show ?thesis by (simp add: keep_def)
  next
    case last
    then have e: "pass_a_cell h c (nc, dc) =
        (case del_team (view (objs ?h1 (cell_team c))) ?h1 of
           Inl e \<Rightarrow> Inl e
         | Inr h2 \<Rightarrow> Inr (h2, nc, dc @ ?dead))"
      using u by simp
    from assms [unfolded e] obtain h2 where
      h2: "del_team (view (objs ?h1 (cell_team c))) ?h1 = Inr h2"
      and r: "h' = h2" "nc' = nc" "dc' = dc @ ?dead"
      by (auto split: sum.splits)
    from del_team_frame [OF h2] have "cells h2 = cells h" "properties h2 = properties h"
      by (simp_all add: add_score_frame)
    with r last d show ?thesis by (simp add: keep_def)
  next
    case kill
    then have e: "pass_a_cell h c (nc, dc) = Inr (?h1, nc, dc @ ?dead)"
      using u by simp
    from assms [unfolded e] have "h' = ?h1" "nc' = nc" "dc' = dc @ ?dead"
      by auto
    with kill d show ?thesis by (simp add: keep_def add_score_frame)
  qed
  from r show "cells h' = cells h" by simp
  from r show "properties h' = properties h" by simp
  from r show "nc' = keep h c nc" by simp
  from r show "set dc' \<subseteq> set dc \<union> {p. map_of (cells h) p = None}" by simp
qed

lemma pass_a_frame:
  "pass_a h cs acc = Inr (h', acc') \<Longrightarrow> cells h' = cells h \<and> properties h' = properties h"
proof (induction cs arbitrary: h acc)
  case Nil
  then show ?case by simp
next
  case (Cons c cs)
  obtain nc dc where a: "acc = (nc, dc)"
    by (metis surj_pair)
  from Cons.prems a obtain h1 nc1 dc1 where
    s: "pass_a_cell h c (nc, dc) = Inr (h1, nc1, dc1)" and
    r: "pass_a h1 cs (nc1, dc1) = Inr (h', acc')"
    by (auto split: sum.splits)
  from pass_a_cell_effect(1,2) [OF s] Cons.IH [OF r] show ?case by simp
qed

lemma keep_frame:
  assumes "cells h1 = cells h" "properties h1 = properties h"
  shows "keep h1 = keep h"
proof -
  have "survives h1 x = survives h x" for x
    using assms by (rule survives_frame)
  then show ?thesis by (simp add: keep_def fun_eq_iff)
qed

lemma pass_a_new_cells:
  "pass_a h cs (nc, dc) = Inr (h', nc', dc') \<Longrightarrow> nc' = fold (keep h) cs nc"
proof (induction cs arbitrary: h nc dc)
  case Nil
  then show ?case by simp
next
  case (Cons c cs)
  from Cons.prems obtain h1 nc1 dc1 where
    s: "pass_a_cell h c (nc, dc) = Inr (h1, nc1, dc1)" and
    r: "pass_a h1 cs (nc1, dc1) = Inr (h', nc', dc')"
    by (auto split: sum.splits)
  have k: "keep h1 = keep h"
    using pass_a_cell_effect(1,2) [OF s] by (rule keep_frame)
  have "nc' = fold (keep h1) cs nc1" using r by (rule Cons.IH)
  with k pass_a_cell_effect(3) [OF s] show ?case by simp
qed

lemma pass_a_dead_cells:
  "pass_a h cs (nc, dc) = Inr (h', nc', dc') \<Longrightarrow>
     set dc' \<subseteq> set dc \<union> {p. map_of (cells h) p = None}"
proof (induction cs arbitrary: h nc dc)
  case Nil
  then show ?case by simp
next
  case (Cons c cs)
  from Cons.prems(1) obtain h1 nc1 dc1 where
    s: "pass_a_cell h c (nc, dc) = Inr (h1, nc1, dc1)" and
    r: "pass_a h1 cs (nc1, dc1) = Inr (h', nc', dc')"
    by (auto split: sum.splits)
  from Cons.IH [OF r] have "set dc' \<subseteq> set dc1 \<union> {p. map_of (cells h1) p = None}" .
  with pass_a_cell_effect(1,4) [OF s] show ?case by auto
qed

lemma pass_b_cell_result:
  "pass_b_cell g p nc = Inr (g', nc') \<Longrightarrow>
     (g' = g \<and> nc' = nc) \<or>
     (\<exists>t. g' = add_score t 1 g \<and>
          nc' = AList.update p (Cell (fst p) (snd p) t (death_age (properties g))) nc)"
  by (auto simp: pass_b_cell_def revive_def Let_def split: prod.splits if_splits list.splits)

lemma pass_b_cell_frame:
  assumes "pass_b_cell g p nc = Inr (g', nc')"
  shows "cells g' = cells g" and "properties g' = properties g"
  using pass_b_cell_result [OF assms] by (auto simp: add_score_frame)

lemma pass_b_frame:
  "pass_b h ps nc = Inr (h', nc') \<Longrightarrow> cells h' = cells h \<and> properties h' = properties h"
proof (induction ps arbitrary: h nc)
  case Nil
  then show ?case by simp
next
  case (Cons p ps)
  from Cons.prems obtain h1 nc1 where
    s: "pass_b_cell h p nc = Inr (h1, nc1)" and r: "pass_b h1 ps nc1 = Inr (h', nc')"
    by (auto split: sum.splits)
  from pass_b_cell_frame [OF s] Cons.IH [OF r] show ?case by simp
qed

lemma pass_b_changes:
  "pass_b h ps nc = Inr (h', nc') \<Longrightarrow> map_of nc' p \<noteq> map_of nc p \<Longrightarrow> p \<in> set ps"
proof (induction ps arbitrary: h nc)
  case Nil
  then show ?case by simp
next
  case (Cons q ps)
  from Cons.prems(1) obtain h1 nc1 where
    s: "pass_b_cell h q nc = Inr (h1, nc1)" and r: "pass_b h1 ps nc1 = Inr (h', nc')"
    by (auto split: sum.splits)
  show ?case
  proof (cases "p = q")
    case True
    then show ?thesis by simp
  next
    case False
    with pass_b_cell_result [OF s] have "map_of nc1 p = map_of nc p"
      by (auto simp: update_conv')
    with Cons.prems(2) have "map_of nc' p \<noteq> map_of nc1 p" by simp
    from Cons.IH [OF r this] show ?thesis by simp
  qed
qed

lemma store_ok_update:
  assumes "store_ok cs" and "position c = p"
  shows "store_ok (AList.update p c cs)"
proof -
  have "list_all (\<lambda>(p, c). position c = p) (AList.update p c xs)"
    if "list_all (\<lambda>(p, c). position c = p) xs" for xs
    using that assms(2) by (induction xs) auto
  with assms(1) show ?thesis
    by (simp add: store_ok_def distinct_update)
qed

lemma store_ok_keep: "store_ok nc \<Longrightarrow> store_ok (keep h c nc)"
  by (simp add: keep_def store_ok_update aged_def position_def)

lemma store_ok_fold_keep: "store_ok nc \<Longrightarrow> store_ok (fold (keep h) cs nc)"
  by (induction cs arbitrary: nc) (simp_all add: store_ok_keep)

lemma pass_b_store_ok:
  "pass_b h ps nc = Inr (h', nc') \<Longrightarrow> store_ok nc \<Longrightarrow> store_ok nc'"
proof (induction ps arbitrary: h nc)
  case Nil
  then show ?case by simp
next
  case (Cons q ps)
  from Cons.prems(1) obtain h1 nc1 where
    s: "pass_b_cell h q nc = Inr (h1, nc1)" and r: "pass_b h1 ps nc1 = Inr (h', nc')"
    by (auto split: sum.splits)
  from pass_b_cell_result [OF s] Cons.prems(2) have "store_ok nc1"
    by (auto simp: store_ok_update position_def Cell_def)
  from Cons.IH [OF r this] show ?case .
qed

lemma update_cells_passes:
  assumes "update_cells set_iter g = Inr g'"
  obtains g1 new_cells dead_cells g2 new_cells' where
    "pass_a g (map snd (cells g)) ([], []) = Inr (g1, new_cells, dead_cells)"
    "pass_b g1 (set_iter dead_cells) new_cells = Inr (g2, new_cells')"
    "g' = g2\<lparr>cells := new_cells'\<rparr>"
  using assms by (auto simp: update_cells_def split: sum.splits prod.splits)

lemma update_cells_store_ok:
  assumes "update_cells set_iter g = Inr g'"
  shows "store_ok (cells g')"
proof -
  from assms obtain g1 new_cells dead_cells g2 new_cells' where
    a: "pass_a g (map snd (cells g)) ([], []) = Inr (g1, new_cells, dead_cells)" and
    b: "pass_b g1 (set_iter dead_cells) new_cells = Inr (g2, new_cells')" and
    g': "g' = g2\<lparr>cells := new_cells'\<rparr>"
    by (rule update_cells_passes)
  have "store_ok []" by (simp add: store_ok_def)
  then have "store_ok new_cells"
    using pass_a_new_cells [OF a] by (simp add: store_ok_fold_keep)
  with b have "store_ok new_cells'" by (rule pass_b_store_ok)
  with g' show ?thesis by simp
qed

lemma place_cell_store_ok: "store_ok (cells g) \<Longrightarrow> store_ok (cells (place_cell y val x g))"
  by (auto simp: place_cell_def add_score_def Let_def store_ok_update position_def Cell_def
      split: option.splits)

lemma fold_place_cell_store_ok:
  "store_ok (cells g) \<Longrightarrow> store_ok (cells (fold (place_cell y val) xs g))"
  by (induction xs arbitrary: g) (simp_all add: place_cell_store_ok)

lemma load_row_store_ok:
  "store_ok (cells g) \<Longrightarrow> load_row y chars x g = Inr g' \<Longrightarrow> store_ok (cells g')"
proof (induction y chars x g rule: load_row.induct)
  case (1 y chars x g)
  note L = load_row_unfold [of y chars x g]
  show ?case
  proof (cases "takeWhile isdigit_char chars = []")
    case True
    with "1.prems" L show ?thesis by simp
  next
    case False
    show ?thesis
    proof (cases "py_int (takeWhile isdigit_char chars)")
      case (Inl e)
      with False "1.prems"(2) L show ?thesis by simp
    next
      case (Inr amount)
      show ?thesis
      proof (cases "take 1 (dropWhile isdigit_char chars) = ''.''")
        case True
        with False Inr "1.prems"(2) L
        have r: "load_row y (drop 1 (dropWhile isdigit_char chars)) (x + amount) g = Inr g'"
          by simp
        have n: "\<not> (py_eq (PStr (take 1 (dropWhile isdigit_char chars))) (PInt (- 1)) \<and>
                   \<not> py_eq (PInt amount) (PInt (- 1)))"
          by (simp add: py_eq_str_int)
        from "1.IH"(1) [OF refl refl refl False Inr refl n True "1.prems"(1) r]
        show ?thesis .
      next
        case dot: False
        let ?g = "fold (place_cell y (take 1 (dropWhile isdigit_char chars)))
                    (py_range x (x + amount)) g"
        from False Inr dot "1.prems"(2) L
        have r: "load_row y (drop 1 (dropWhile isdigit_char chars))
                   (last (x # py_range x (x + amount)) + 1) ?g = Inr g'"
          by simp
        have n: "\<not> (py_eq (PStr (take 1 (dropWhile isdigit_char chars))) (PInt (- 1)) \<and>
                   \<not> py_eq (PInt amount) (PInt (- 1)))"
          by (simp add: py_eq_str_int)
        have s: "store_ok (cells ?g)"
          using "1.prems"(1) by (rule fold_place_cell_store_ok)
        from "1.IH"(2) [OF refl refl refl False Inr refl n dot s r]
        show ?thesis .
      qed
    qed
  qed
qed

lemma load_rows_store_ok:
  "store_ok (cells g) \<Longrightarrow> load_rows y lines g = Inr g' \<Longrightarrow> store_ok (cells g')"
proof (induction lines arbitrary: y g)
  case Nil
  then show ?case by simp
next
  case (Cons line lines)
  from Cons.prems(2) obtain g1 where
    s: "load_row y (strip line) 0 g = Inr g1" and r: "load_rows (y + 1) lines g1 = Inr g'"
    by (auto split: sum.splits)
  from Cons.prems(1) s have "store_ok (cells g1)" by (rule load_row_store_ok)
  from Cons.IH [OF this r] show ?case .
qed

lemma load_game_store_ok:
  assumes "cells g0 = []" and "load_game g0 config rows = Inr g"
  shows "store_ok (cells g)"
proof -
  from assms(2) obtain p where "load_rows 0 rows (g0\<lparr>properties := p\<rparr>) = Inr g"
    by (auto simp: load_game_def load_cells_def split: prod.splits option.splits)
  moreover have "store_ok (cells (g0\<lparr>properties := p\<rparr>))"
    using assms(1) by (simp add: store_ok_def)
  ultimately show ?thesis
    using load_rows_store_ok by blast
qed

lemma generation_store_ok: "generation set_iter g \<Longrightarrow> store_ok (cells g)"
proof (induction rule: generation.induct)
  case (loaded g0 config rows g)
  then show ?case by (rule load_game_store_ok)
next
  case (round g g')
  from round.hyps(2) show ?case by (rule update_cells_store_ok)
qed

lemma pass_b_inserts_dead:
  assumes "set_order set_iter"
    and a: "pass_a g (map snd (cells g)) ([], []) = Inr (g1, new_cells, dead_cells)"
    and b: "pass_b g1 (set_iter dead_cells) new_cells = Inr (g2, new_cells')"
    and p: "map_of new_cells' p \<noteq> map_of new_cells p"
  shows "map_of (cells g) p = None"
proof -
  from pass_b_changes [OF b p] have "p \<in> set (set_iter dead_cells)" .
  with assms(1) have "p \<in> set dead_cells" by (simp add: set_order_def)
  with pass_a_dead_cells [OF a] show ?thesis by auto
qed







subsection \<open>Revival candidates and the cell store\<close>

text \<open>
  C5: in every generation (a loaded game, or the result of a round on a generation) the
  keys of the cell store are distinct and every cell sits at the key of its own position,
  so no two cells share a position. In every round on a generation, every revival
  candidate the second loop visits is unoccupied in the store as it was before the round;
  the second loop changes the new store at candidates only, so it leaves the positions
  occupied before the round as the first loop made them: a position the first loop
  dropped is still empty after the second.
\<close>

theorem revival_candidates_unoccupied:
  assumes "set_order set_iter" and "generation set_iter g"
  shows "distinct (map fst (cells g)) \<and>
         list_all (\<lambda>(p, c). position c = p) (cells g) \<and>
         (\<forall>g1 new_cells dead_cells g2 new_cells'.
            pass_a g (map snd (cells g)) ([], []) = Inr (g1, new_cells, dead_cells) \<and>
            pass_b g1 (set_iter dead_cells) new_cells = Inr (g2, new_cells') \<longrightarrow>
            (\<forall>p \<in> set (set_iter dead_cells). map_of (cells g) p = None) \<and>
            (\<forall>p. map_of new_cells' p \<noteq> map_of new_cells p \<longrightarrow>
                   p \<in> set (set_iter dead_cells)) \<and>
            (\<forall>p. map_of (cells g) p \<noteq> None \<and> map_of new_cells p = None \<longrightarrow>
                   map_of new_cells' p = None))"
proof -
  from assms(2) have ok: "store_ok (cells g)" by (rule generation_store_ok)
  have passes: "(\<forall>p \<in> set (set_iter dead_cells). map_of (cells g) p = None) \<and>
      (\<forall>p. map_of new_cells' p \<noteq> map_of new_cells p \<longrightarrow> p \<in> set (set_iter dead_cells)) \<and>
      (\<forall>p. map_of (cells g) p \<noteq> None \<and> map_of new_cells p = None \<longrightarrow>
             map_of new_cells' p = None)"
    if a: "pass_a g (map snd (cells g)) ([], []) = Inr (g1, new_cells, dead_cells)"
      and b: "pass_b g1 (set_iter dead_cells) new_cells = Inr (g2, new_cells')"
    for g1 new_cells dead_cells g2 new_cells'
  proof (intro conjI ballI allI impI)
    fix p
    assume "p \<in> set (set_iter dead_cells)"
    with assms(1) have "p \<in> set dead_cells" by (simp add: set_order_def)
    with pass_a_dead_cells [OF a] show "map_of (cells g) p = None" by auto
  next
    fix p
    assume "map_of new_cells' p \<noteq> map_of new_cells p"
    with b show "p \<in> set (set_iter dead_cells)" by (rule pass_b_changes)
  next
    fix p
    assume p: "map_of (cells g) p \<noteq> None \<and> map_of new_cells p = None"
    have "map_of new_cells' p = map_of new_cells p"
      using pass_b_inserts_dead [OF assms(1) a b, of p] p by blast
    with p show "map_of new_cells' p = None" by simp
  qed
  from ok passes show ?thesis
    by (simp add: store_ok_def)
qed

theorem revival_candidates_unoccupied_witness:
  "\<exists>g g1 new_cells dead_cells g2 new_cells'.
     load_game init [''to-kill:1''] [''1a'', ''2.1b'', ''2.1c''] = Inr g \<and>
     set_order remdups \<and> generation remdups g \<and>
     pass_a g (map snd (cells g)) ([], []) = Inr (g1, new_cells, dead_cells) \<and>
     pass_b g1 (remdups dead_cells) new_cells = Inr (g2, new_cells') \<and>
     distinct (map fst (cells g)) \<and> list_all (\<lambda>(p, c). position c = p) (cells g) \<and>
     (1, 1) \<in> set (remdups dead_cells) \<and> map_of new_cells' (1, 1) \<noteq> map_of new_cells (1, 1) \<and>
     map_of (cells g) (1, 1) = None"
proof -
  from kill_example obtain g g1 new_cells dead_cells g2 where
    g: "load_game init [''to-kill:1''] [''1a'', ''2.1b'', ''2.1c''] = Inr g" and
    a: "pass_a g (map snd (cells g)) ([], []) = Inr (g1, new_cells, dead_cells)" and
    d: "(1, 1) \<in> set dead_cells" "map_of new_cells (1, 1) = None" and
    u: "update_cells remdups g = Inr g2" "map_of (cells g2) (1, 1) = Some (Cell 1 1 0 4)"
    by blast
  from u(1) a obtain h2 new_cells' where
    b: "pass_b g1 (remdups dead_cells) new_cells = Inr (h2, new_cells')" and
    g2: "g2 = h2\<lparr>cells := new_cells'\<rparr>"
    by (auto simp: update_cells_def split: sum.splits)
  from u(2) g2 d(2) have c: "map_of new_cells' (1, 1) \<noteq> map_of new_cells (1, 1)"
    by simp
  have gen: "generation remdups g"
    using g by (intro generation.loaded [of init]) (simp_all add: init_def)
  from revival_candidates_unoccupied [OF set_order_remdups gen] a b d(1)
  have "distinct (map fst (cells g)) \<and> list_all (\<lambda>(p, c). position c = p) (cells g) \<and>
        map_of (cells g) (1, 1) = None"
    by simp
  with g set_order_remdups gen a b d(1) c show ?thesis
    by (intro exI [of _ g] exI [of _ g1] exI [of _ new_cells] exI [of _ dead_cells]
        exI [of _ h2] exI [of _ new_cells']) simp
qed

subsection \<open>The first loop, cell by cell\<close>






end
